theory Spec2Isabelle
  imports Main "HOL-Library.Word"
begin

section \<open>The document tree\<close>

text \<open>
  The program works on the tree that \<^verbatim>\<open>gopkg.in/yaml.v3\<close> decodes: a \<^verbatim>\<open>yaml.Node\<close> with a
  \<^verbatim>\<open>Kind\<close>, the children \<^verbatim>\<open>Content\<close> and the text \<^verbatim>\<open>Value\<close>. A mapping node keeps its
  entries flat in \<^verbatim>\<open>Content\<close>: key node, value node, key node, value node, ...
  The other fields of \<^verbatim>\<open>yaml.Node\<close> (tag, anchor, position) are never read by the program.
\<close>

datatype Kind = DocumentNode | SequenceNode | MappingNode | ScalarNode | AliasNode

datatype Node = Node (Kind: Kind) (Content: "Node list") (Value: string)

text \<open>
  What a call can end in besides its result: an \<^verbatim>\<open>error\<close> value built by \<^verbatim>\<open>fmt.Errorf\<close>
  (its message), or a run-time panic of the Go runtime (index or slice bounds out of range).
\<close>

datatype failure = Error string | Panic

section \<open>The library functions the program calls\<close>

text \<open>
  \<^verbatim>\<open>strings.Join(elems, sep)\<close>: the elements with \<^verbatim>\<open>sep\<close> between each two of them.
\<close>

fun strings_Join :: "string list \<Rightarrow> string \<Rightarrow> string" where
  "strings_Join [] sep = []"
| "strings_Join [x] sep = x"
| "strings_Join (x # y # ys) sep = x @ sep @ strings_Join (y # ys) sep"

text \<open>
  \<^verbatim>\<open>strings.Split(s, sep)\<close> for a separator of one byte, the only kind the program passes
  (\<^verbatim>\<open>"."\<close>): the pieces of \<^verbatim>\<open>s\<close> between the separators, so \<^verbatim>\<open>Split("", ".")\<close> is the
  one-element list holding the empty string.
\<close>

fun strings_Split :: "string \<Rightarrow> char \<Rightarrow> string list" where
  "strings_Split [] sep = [[]]"
| "strings_Split (c # cs) sep =
     (if c = sep then [] # strings_Split cs sep
      else (case strings_Split cs sep of
              [] \<Rightarrow> [[c]]
            | p # ps \<Rightarrow> (c # p) # ps))"

text \<open>
  \<^verbatim>\<open>strings.Contains(s, sub)\<close> and \<^verbatim>\<open>strings.Index(s, sub)\<close> for a one-byte \<^verbatim>\<open>sub\<close>
  (\<^verbatim>\<open>"["\<close> and \<^verbatim>\<open>"]"\<close>): \<^verbatim>\<open>Index\<close> is the position of the first occurrence, or \<open>-1\<close>.
\<close>

definition strings_Contains :: "string \<Rightarrow> char \<Rightarrow> bool" where
  "strings_Contains s c = (c \<in> set s)"

fun strings_Index :: "string \<Rightarrow> char \<Rightarrow> int" where
  "strings_Index [] c = - 1"
| "strings_Index (x # xs) c =
     (if x = c then 0
      else (let r = strings_Index xs c in if r < 0 then - 1 else r + 1))"

text \<open>
  The slice expression \<^verbatim>\<open>s[lo:hi]\<close>. The runtime panics unless \<open>0 \<le> lo \<le> hi \<le> len(s)\<close>;
  \<open>None\<close> is that panic.
\<close>

definition slice :: "string \<Rightarrow> int \<Rightarrow> int \<Rightarrow> string option" where
  "slice s lo hi =
     (if 0 \<le> lo \<and> lo \<le> hi \<and> hi \<le> int (length s)
      then Some (take (nat (hi - lo)) (drop (nat lo) s))
      else None)"

text \<open>
  \<^verbatim>\<open>strconv.Atoi\<close>, as the program uses it: \<^verbatim>\<open>index, _ := strconv.Atoi(indexString)\<close>
  keeps the value and throws the error away. The value is the decimal number for an
  optional sign followed by one or more digits, clamped to the range of a 64-bit \<^verbatim>\<open>int\<close>;
  it is 0 for every text that is not of that shape.
\<close>

definition is_digit :: "char \<Rightarrow> bool" where
  "is_digit c = (48 \<le> (of_char c :: nat) \<and> (of_char c :: nat) \<le> 57)"

definition unsigned_part :: "string \<Rightarrow> string" where
  "unsigned_part s = (if s \<noteq> [] \<and> (hd s = CHR ''-'' \<or> hd s = CHR ''+'') then tl s else s)"

definition is_number :: "string \<Rightarrow> bool" where
  "is_number s = (unsigned_part s \<noteq> [] \<and> list_all is_digit (unsigned_part s))"

fun digits_value :: "nat \<Rightarrow> string \<Rightarrow> nat" where
  "digits_value n [] = n"
| "digits_value n (c # cs) = digits_value (n * 10 + (of_char c - 48)) cs"

definition strconv_Atoi :: "string \<Rightarrow> int" where
  "strconv_Atoi s =
     (if \<not> is_number s then 0
      else (let n = digits_value 0 (unsigned_part s) in
            if hd s = CHR ''-'' then (if n > 2 ^ 63 then - (2 ^ 63) else - int n)
            else (if n \<ge> 2 ^ 63 then 2 ^ 63 - 1 else int n)))"

text \<open>The verb \<^verbatim>\<open>%d\<close> of \<^verbatim>\<open>fmt.Sprintf\<close> and \<^verbatim>\<open>fmt.Errorf\<close>: an integer in decimal.\<close>

definition digit_char :: "nat \<Rightarrow> char" where
  "digit_char d = ''0123456789'' ! d"

fun show_nat :: "nat \<Rightarrow> string" where
  "show_nat n =
     (if n < 10 then [digit_char n] else show_nat (n div 10) @ [digit_char (n mod 10)])"

declare show_nat.simps [simp del]

definition show_int :: "int \<Rightarrow> string" where
  "show_int i = (if i < 0 then CHR ''-'' # show_nat (nat (- i)) else show_nat (nat i))"

section \<open>Navigation: getMapValue and findNodeByPath\<close>

text \<open>
  \<^verbatim>\<open>getMapValue\<close> returns \<^verbatim>\<open>nil\<close> (\<open>None\<close>) for a node that is not a mapping, and otherwise
  scans the keys at the even positions for an exact match. The read \<^verbatim>\<open>node.Content[i+1]\<close>
  panics when a matching key is the last element of an odd-length \<^verbatim>\<open>Content\<close>.
\<close>

fun getMapValue_loop :: "Node list \<Rightarrow> string \<Rightarrow> failure + Node option" where
  "getMapValue_loop [] key = Inr None"
| "getMapValue_loop [k] key = (if Value k = key then Inl Panic else Inr None)"
| "getMapValue_loop (k # v # rest) key =
     (if Value k = key then Inr (Some v) else getMapValue_loop rest key)"

definition getMapValue :: "Node \<Rightarrow> string \<Rightarrow> failure + Node option" where
  "getMapValue node key =
     (if Kind node \<noteq> MappingNode then Inr None else getMapValue_loop (Content node) key)"

text \<open>
  The loop of \<^verbatim>\<open>findNodeByPath\<close> over the parts of the entry point. A part that contains
  \<^verbatim>\<open>"["\<close> is cut into the name before it and the text between the first \<^verbatim>\<open>"["\<close> and the first
  \<^verbatim>\<open>"]"\<close>; the two slice expressions and the read \<^verbatim>\<open>child.Content[index]\<close> are where the
  runtime can panic. The guard before the read is \<^verbatim>\<open>index >= len(child.Content)\<close> only.
\<close>

fun findNodeByPath_loop :: "string \<Rightarrow> Node \<Rightarrow> string list \<Rightarrow> failure + Node" where
  "findNodeByPath_loop entrypoint current [] = Inr current"
| "findNodeByPath_loop entrypoint current (part # parts) =
     (if strings_Contains part (CHR ''['') then
        (case slice part 0 (strings_Index part (CHR ''['')) of
           None \<Rightarrow> Inl Panic
         | Some name \<Rightarrow>
            (case slice part (strings_Index part (CHR ''['') + 1) (strings_Index part (CHR '']'')) of
               None \<Rightarrow> Inl Panic
             | Some indexString \<Rightarrow>
                (let index = strconv_Atoi indexString in
                 case getMapValue current name of
                   Inl e \<Rightarrow> Inl e
                 | Inr None \<Rightarrow> Inl (Error (''key '' @ name @ '' not found''))
                 | Inr (Some child) \<Rightarrow>
                     if Kind child \<noteq> SequenceNode \<or> index \<ge> int (length (Content child))
                     then Inl (Error (''index ['' @ show_int index @ ''] out of range for '' @ name))
                     else if index < 0 then Inl Panic
                     else findNodeByPath_loop entrypoint (Content child ! nat index) parts)))
      else
        (case getMapValue current part of
           Inl e \<Rightarrow> Inl e
         | Inr None \<Rightarrow> Inl (Error (''invalid format: '' @ entrypoint))
         | Inr (Some next) \<Rightarrow> findNodeByPath_loop entrypoint next parts))"

definition findNodeByPath :: "Node \<Rightarrow> string \<Rightarrow> failure + Node" where
  "findNodeByPath node entrypoint =
     findNodeByPath_loop entrypoint node (strings_Split entrypoint (CHR ''.''))"

section \<open>Flattening: walk\<close>

text \<open>
  The table \<^verbatim>\<open>autoGenerated\<close> is a Go \<^verbatim>\<open>map[string]bool\<close>; reading a key that is absent
  gives \<^verbatim>\<open>false\<close>.
\<close>

definition autoGenerated :: "string \<rightharpoonup> bool" where
  "autoGenerated = map_of
     [(''creationTimestamp'', True),
      (''resourceVersion'', True),
      (''generation'', True),
      (''uid'', True),
      (''managedFields'', True),
      (''selfLink'', True),
      (''status'', True)]"

definition lookup :: "(string \<rightharpoonup> bool) \<Rightarrow> string \<Rightarrow> bool" where
  "lookup m key = (case m key of None \<Rightarrow> False | Some b \<Rightarrow> b)"

text \<open>
  \<^verbatim>\<open>walk\<close> writes to \<^verbatim>\<open>out\<close> with one \<^verbatim>\<open>fmt.Fprintf\<close> per line: \<open>emit path text\<close> is
  what \<^verbatim>\<open>fmt.Fprintf(out, "%s: %s\n", strings.Join(path, "."), text)\<close> writes, and the two
  placeholder lines are the same format with the fixed texts. The model returns the texts
  written, in order, one list element per call (each ends in the newline byte), and
  whether the call returned (\<open>True\<close>) or the runtime panicked after writing them (\<open>False\<close>):
  the read \<^verbatim>\<open>node.Content[i+1]\<close> of the mapping loop is out of range when \<^verbatim>\<open>Content\<close> has odd
  length. The global flag \<^verbatim>\<open>pure\<close> is the first parameter. The slice \<^verbatim>\<open>path\<close> is only
  appended to for the duration of one recursive call, whose lines are written before the
  next append, so value semantics for it is exact. The label of the sequence item \<open>i\<close>
  is \<^verbatim>\<open>fmt.Sprintf("\b[%d]", i)\<close>: a backspace byte, then the index in brackets.
\<close>

definition emit :: "string list \<Rightarrow> string \<Rightarrow> string" where
  "emit path text = strings_Join path ''.'' @ '': '' @ text @ [CHR 0x0A]"

definition then_walk :: "string list \<times> bool \<Rightarrow> string list \<times> bool \<Rightarrow> string list \<times> bool" where
  "then_walk a b = (if snd a then (fst a @ fst b, snd b) else a)"

definition index_label :: "nat \<Rightarrow> string" where
  "index_label i = CHR 0x08 # ''['' @ show_int (int i) @ '']''"

fun walk :: "bool \<Rightarrow> Node \<Rightarrow> string list \<Rightarrow> int \<Rightarrow> string list \<times> bool"
and walk_mapping :: "bool \<Rightarrow> Node list \<Rightarrow> string list \<Rightarrow> int \<Rightarrow> string list \<times> bool"
and walk_sequence :: "bool \<Rightarrow> nat \<Rightarrow> Node list \<Rightarrow> string list \<Rightarrow> int \<Rightarrow> string list \<times> bool"
where
  "walk pure (Node kind content val) path remain =
     (if kind = MappingNode then
        (if remain = 0
         then ([emit path ''<object>''], True)
         else walk_mapping pure content path (if remain > 0 then remain - 1 else remain))
      else if kind = SequenceNode then
        (if remain = 0
         then ([emit path ''<array>''], True)
         else walk_sequence pure 0 content path (if remain > 0 then remain - 1 else remain))
      else ([emit path val], True))"
| "walk_mapping pure [] path nextRem = ([], True)"
| "walk_mapping pure [keyNode] path nextRem = ([], False)"
| "walk_mapping pure (keyNode # valueNode # rest) path nextRem =
     (if pure \<and> lookup autoGenerated (Value keyNode)
      then walk_mapping pure rest path nextRem
      else then_walk (walk pure valueNode (path @ [Value keyNode]) nextRem)
                     (walk_mapping pure rest path nextRem))"
| "walk_sequence pure i [] path nextRem = ([], True)"
| "walk_sequence pure i (item # rest) path nextRem =
     then_walk (walk pure item (path @ [index_label i]) nextRem)
               (walk_sequence pure (Suc i) rest path nextRem)"

section \<open>The part of main that follows decoding\<close>

text \<open>
  \<^verbatim>\<open>main\<close> after the flags are parsed and the YAML bytes are decoded into \<^verbatim>\<open>yamlRoot\<close>
  (reading the file or fetching the object is input/output and not modelled). The flags
  \<^verbatim>\<open>entry\<close>, \<^verbatim>\<open>file\<close>, \<^verbatim>\<open>pure\<close> and \<^verbatim>\<open>depth\<close> (an \<^verbatim>\<open>int16\<close>, converted with \<^verbatim>\<open>int(depth)\<close>) are
  parameters; \<open>entryPath\<close> is the prefix \<^verbatim>\<open>main\<close> computes from \<^verbatim>\<open>entry\<close> before anything
  else. The read \<^verbatim>\<open>yamlRoot.Content[0]\<close> panics on a document without content, and
  \<^verbatim>\<open>findNodeByPath\<close> is called on \<^verbatim>\<open>&yamlRoot\<close>, the document node. \<open>Walked\<close>: the lines written to \<^verbatim>\<open>out\<close>; \<open>Printed\<close>: the error that
  \<^verbatim>\<open>fmt.Println(err)\<close> wrote to standard output instead; \<open>Crashed\<close>: a run-time panic after
  the given lines.
\<close>

datatype outcome = Walked "string list" | Printed string | Crashed "string list"

definition finish :: "string list \<times> bool \<Rightarrow> outcome" where
  "finish r = (if snd r then Walked (fst r) else Crashed (fst r))"

definition entryPath :: "string \<Rightarrow> string list" where
  "entryPath entry = (if entry \<noteq> [] then strings_Split entry (CHR ''.'') else [])"

definition main :: "string \<Rightarrow> string \<Rightarrow> bool \<Rightarrow> 16 word \<Rightarrow> Node \<Rightarrow> outcome" where
  "main entry file pure depth yamlRoot =
     (case Content yamlRoot of
        [] \<Rightarrow> Crashed []
      | rootNode # others \<Rightarrow>
          if file \<noteq> [] then finish (walk pure rootNode (entryPath entry) (sint depth))
          else if entry = [] then finish (walk pure rootNode (entryPath entry) (sint depth))
          else (case findNodeByPath yamlRoot entry of
                  Inl (Error msg) \<Rightarrow> Printed (msg @ [CHR 0x0A])
                | Inl Panic \<Rightarrow> Crashed []
                | Inr found \<Rightarrow> finish (walk pure found (entryPath entry) (sint depth))))"

section \<open>The specification's notions, for comparison with the code\<close>

text \<open>
  A decoded tree is well formed when every mapping node holds whole entries, that is, its
  \<^verbatim>\<open>Content\<close> has even length at every level. The decoder only builds such trees.
\<close>

fun well_formed :: "Node \<Rightarrow> bool"
and well_formed_entries :: "Node list \<Rightarrow> bool"
and well_formed_items :: "Node list \<Rightarrow> bool"
where
  "well_formed (Node kind content val) =
     (if kind = MappingNode then well_formed_entries content
      else if kind = SequenceNode then well_formed_items content
      else True)"
| "well_formed_entries [] = True"
| "well_formed_entries [keyNode] = False"
| "well_formed_entries (keyNode # valueNode # rest) =
     (well_formed valueNode \<and> well_formed_entries rest)"
| "well_formed_items [] = True"
| "well_formed_items (item # rest) = (well_formed item \<and> well_formed_items rest)"

text \<open>
  The scalars reachable in a tree, in pre-order: the entries of a mapping in document
  order, the items of a sequence in index order, each scalar with the labels on the way
  to it (after the given prefix) and its text. A node that is neither a mapping nor a
  sequence is a leaf. \<open>count_scalars\<close> counts them.
\<close>

fun leaves :: "string list \<Rightarrow> Node \<Rightarrow> (string list \<times> string) list"
and entry_leaves :: "string list \<Rightarrow> Node list \<Rightarrow> (string list \<times> string) list"
and item_leaves :: "string list \<Rightarrow> nat \<Rightarrow> Node list \<Rightarrow> (string list \<times> string) list"
where
  "leaves prefix (Node kind content val) =
     (if kind = MappingNode then entry_leaves prefix content
      else if kind = SequenceNode then item_leaves prefix 0 content
      else [(prefix, val)])"
| "entry_leaves prefix [] = []"
| "entry_leaves prefix [keyNode] = []"
| "entry_leaves prefix (keyNode # valueNode # rest) =
     leaves (prefix @ [Value keyNode]) valueNode @ entry_leaves prefix rest"
| "item_leaves prefix i [] = []"
| "item_leaves prefix i (item # rest) =
     leaves (prefix @ [index_label i]) item @ item_leaves prefix (Suc i) rest"

fun count_scalars :: "Node \<Rightarrow> nat"
and count_entry_scalars :: "Node list \<Rightarrow> nat"
and count_item_scalars :: "Node list \<Rightarrow> nat"
where
  "count_scalars (Node kind content val) =
     (if kind = MappingNode then count_entry_scalars content
      else if kind = SequenceNode then count_item_scalars content
      else 1)"
| "count_entry_scalars [] = 0"
| "count_entry_scalars [keyNode] = 0"
| "count_entry_scalars (keyNode # valueNode # rest) =
     count_scalars valueNode + count_entry_scalars rest"
| "count_item_scalars [] = 0"
| "count_item_scalars (item # rest) = count_scalars item + count_item_scalars rest"

definition line :: "string list \<times> string \<Rightarrow> string" where
  "line leaf = emit (fst leaf) (snd leaf)"

text \<open>
  Depth truncation as the specification words it: the subtree below the nesting limit is
  replaced by a single summary. \<open>truncate d t\<close> keeps \<open>d\<close> levels of mappings and
  sequences and puts a leaf with the text \<^verbatim>\<open><object>\<close> or \<^verbatim>\<open><array>\<close> in place of every mapping
  or sequence below them.
\<close>

fun truncate :: "nat \<Rightarrow> Node \<Rightarrow> Node"
and truncate_entries :: "nat \<Rightarrow> Node list \<Rightarrow> Node list"
and truncate_items :: "nat \<Rightarrow> Node list \<Rightarrow> Node list"
where
  "truncate d (Node kind content val) =
     (if kind = MappingNode then
        (case d of
           0 \<Rightarrow> Node ScalarNode [] ''<object>''
         | Suc d' \<Rightarrow> Node MappingNode (truncate_entries d' content) val)
      else if kind = SequenceNode then
        (case d of
           0 \<Rightarrow> Node ScalarNode [] ''<array>''
         | Suc d' \<Rightarrow> Node SequenceNode (truncate_items d' content) val)
      else Node kind content val)"
| "truncate_entries d [] = []"
| "truncate_entries d [keyNode] = [keyNode]"
| "truncate_entries d (keyNode # valueNode # rest) =
     keyNode # truncate d valueNode # truncate_entries d rest"
| "truncate_items d [] = []"
| "truncate_items d (item # rest) = truncate d item # truncate_items d rest"

text \<open>
  Pruning as the specification words it: \<open>drop_key key t\<close> is \<open>t\<close> without the mapping
  entries keyed \<open>key\<close>, at every nesting level, each with its whole subtree.
\<close>

fun drop_key :: "string \<Rightarrow> Node \<Rightarrow> Node"
and drop_key_entries :: "string \<Rightarrow> Node list \<Rightarrow> Node list"
and drop_key_items :: "string \<Rightarrow> Node list \<Rightarrow> Node list"
where
  "drop_key key (Node kind content val) =
     (if kind = MappingNode then Node kind (drop_key_entries key content) val
      else if kind = SequenceNode then Node kind (drop_key_items key content) val
      else Node kind content val)"
| "drop_key_entries key [] = []"
| "drop_key_entries key [keyNode] = [keyNode]"
| "drop_key_entries key (keyNode # valueNode # rest) =
     (if Value keyNode = key then drop_key_entries key rest
      else keyNode # drop_key key valueNode # drop_key_entries key rest)"
| "drop_key_items key [] = []"
| "drop_key_items key (item # rest) = drop_key key item # drop_key_items key rest"

text \<open>
  The keys that pruning removes, as a list, and pruning as the specification words it
  for that list: \<open>prune t\<close> is \<open>t\<close> without the mapping entries whose key is one of them, at
  every nesting level, each with its whole subtree. \<open>pruned pure t\<close> is the tree that is
  left to flatten under the flag \<^verbatim>\<open>pure\<close>.
\<close>

definition generated_keys :: "string list" where
  "generated_keys = [''creationTimestamp'', ''resourceVersion'', ''generation'', ''uid'',
                     ''managedFields'', ''selfLink'', ''status'']"

fun prune :: "Node \<Rightarrow> Node"
and prune_entries :: "Node list \<Rightarrow> Node list"
and prune_items :: "Node list \<Rightarrow> Node list"
where
  "prune (Node kind content val) =
     (if kind = MappingNode then Node kind (prune_entries content) val
      else if kind = SequenceNode then Node kind (prune_items content) val
      else Node kind content val)"
| "prune_entries [] = []"
| "prune_entries [keyNode] = [keyNode]"
| "prune_entries (keyNode # valueNode # rest) =
     (if Value keyNode \<in> set generated_keys then prune_entries rest
      else keyNode # prune valueNode # prune_entries rest)"
| "prune_items [] = []"
| "prune_items (item # rest) = prune item # prune_items rest"

definition pruned :: "bool \<Rightarrow> Node \<Rightarrow> Node" where
  "pruned pure T = (if pure then prune T else T)"

text \<open>
  Path segments and their rendering. \<open>label\<close> is the element \<^verbatim>\<open>walk\<close> appends to \<^verbatim>\<open>path\<close> for
  a segment: the key of a mapping entry, or \<open>index_label i\<close> for the item \<open>i\<close> of a
  sequence; \<open>render\<close> is what the program then prints for a path,
  \<^verbatim>\<open>strings.Join(path, ".")\<close>. \<open>render_spec\<close> is the rendering the specification describes:
  a dot before every field but the first token, and \<^verbatim>\<open>[i]\<close> put directly after the
  previous token.
\<close>

datatype PathSegment = Field string | Index nat

fun label :: "PathSegment \<Rightarrow> string" where
  "label (Field name) = name"
| "label (Index i) = index_label i"

definition render :: "PathSegment list \<Rightarrow> string" where
  "render segments = strings_Join (map label segments) ''.''"

fun render_spec_from :: "bool \<Rightarrow> PathSegment list \<Rightarrow> string" where
  "render_spec_from first [] = []"
| "render_spec_from first (Field name # rest) =
     (if first then name else ''.'' @ name) @ render_spec_from False rest"
| "render_spec_from first (Index i # rest) =
     ''['' @ show_int (int i) @ '']'' @ render_spec_from False rest"

definition render_spec :: "PathSegment list \<Rightarrow> string" where
  "render_spec segments = render_spec_from True segments"

text \<open>
  What a terminal shows for the bytes of a line: the byte 8 (backspace) takes the
  character before it off the line, every other byte is put at its end. The program
  relies on this for the dot that \<^verbatim>\<open>strings.Join\<close> puts before an index label.
\<close>

fun shown :: "string \<Rightarrow> string \<Rightarrow> string" where
  "shown screen [] = screen"
| "shown screen (c # cs) =
     (if c = CHR 0x08 then shown (butlast screen) cs else shown (screen @ [c]) cs)"

text \<open>A segment without a backspace byte of its own: every index, and a field whose name has none.\<close>

fun plain :: "PathSegment \<Rightarrow> bool" where
  "plain (Field name) = (CHR 0x08 \<notin> set name)"
| "plain (Index i) = True"

section \<open>Example documents\<close>

definition scalar :: "string \<Rightarrow> Node" where
  "scalar text = Node ScalarNode [] text"

definition mapping :: "Node list \<Rightarrow> Node" where
  "mapping entries = Node MappingNode entries []"

definition sequence :: "Node list \<Rightarrow> Node" where
  "sequence items = Node SequenceNode items []"

text \<open>The sequence under \<^verbatim>\<open>spec.containers\<close> and the tree that holds it.\<close>

definition containers :: Node where
  "containers = sequence [mapping [scalar ''name'', scalar ''nginx'',
                                   scalar ''image'', scalar ''nginx:latest'']]"

definition pod :: Node where
  "pod = mapping [scalar ''spec'', mapping [scalar ''containers'', containers]]"

text \<open>The tree \<^verbatim>\<open>{items: [x, y]}\<close> and the tree \<^verbatim>\<open>{a: {b: 1}}\<close>.\<close>

definition items_doc :: Node where
  "items_doc = mapping [scalar ''items'', sequence [scalar ''x'', scalar ''y'']]"

definition nested_doc :: Node where
  "nested_doc = mapping [scalar ''a'', mapping [scalar ''b'', scalar ''1'']]"

text \<open>
  A tree with mappings and sequences at several depths; a tree with every key of the
  table and two keys that differ from \<^verbatim>\<open>status\<close> in case only; a tree with an entry whose key
  is the empty text.
\<close>

definition depth_doc :: Node where
  "depth_doc = mapping [scalar ''a'', mapping [scalar ''x'', sequence [scalar ''1'', scalar ''2'']],
                        scalar ''b'', sequence [mapping [scalar ''y'', scalar ''2''], scalar ''z''],
                        scalar ''c'', scalar ''3'']"



section \<open>Evaluation rules\<close>

lemmas doc_defs =
  scalar_def mapping_def sequence_def containers_def pod_def items_doc_def nested_doc_def

lemmas show_defs = show_int_def show_nat.simps digit_char_def index_label_def

lemmas path_defs = findNodeByPath_def strings_Contains_def slice_def getMapValue_def
  strconv_Atoi_def is_number_def unsigned_part_def is_digit_def

section \<open>Flattening without a depth limit and without pruning\<close>

lemma walk_unbounded:
  "well_formed node \<Longrightarrow> remain < 0 \<Longrightarrow>
     walk False node path remain = (map line (leaves path node), True)"
  "well_formed_entries entries \<Longrightarrow> remain < 0 \<Longrightarrow>
     walk_mapping False entries path remain = (map line (entry_leaves path entries), True)"
  "well_formed_items items \<Longrightarrow> remain < 0 \<Longrightarrow>
     walk_sequence False i items path remain = (map line (item_leaves path i items), True)"
proof (induction path node and path entries and path i items
       arbitrary: remain and remain and remain
       rule: leaves_entry_leaves_item_leaves.induct)
qed (auto simp: then_walk_def line_def)

lemma length_leaves:
  "length (leaves path node) = count_scalars node"
  "length (entry_leaves path entries) = count_entry_scalars entries"
  "length (item_leaves path i items) = count_item_scalars items"
  by (induction path node and path entries and path i items
      rule: leaves_entry_leaves_item_leaves.induct) auto

text \<open>
  C1. With a negative \<^verbatim>\<open>remain\<close> (no depth limit; the flag's default is \<open>-1\<close>) and \<^verbatim>\<open>pure\<close>
  off, \<^verbatim>\<open>walk\<close> on a well-formed tree returns after writing exactly the lines of the
  scalars reachable in the tree, one \<^verbatim>\<open>Fprintf\<close> per scalar, in pre-order (mapping entries
  in document order, sequence items in index order); their number is the number of
  scalars, and an empty mapping or sequence writes nothing.
\<close>

theorem walk_unbounded_one_line_per_scalar:
  assumes "well_formed T" and "remain < 0"
  shows "walk False T path remain = (map line (leaves path T), True)
         \<and> length (fst (walk False T path remain)) = count_scalars T
         \<and> ((Kind T = MappingNode \<or> Kind T = SequenceNode) \<and> Content T = []
              \<longrightarrow> walk False T path remain = ([], True))"
proof -
  have w: "walk False T path remain = (map line (leaves path T), True)"
    using assms by (rule walk_unbounded(1))
  have n: "length (fst (walk False T path remain)) = count_scalars T"
    by (simp add: w length_leaves(1))
  have e: "(Kind T = MappingNode \<or> Kind T = SequenceNode) \<and> Content T = []
              \<longrightarrow> walk False T path remain = ([], True)"
    using assms(2) by (cases T) auto
  from w n e show ?thesis by blast
qed

theorem walk_unbounded_one_line_per_scalar_witness:
  "well_formed pod \<and> (- 1 :: int) < 0
   \<and> walk False pod [] (- 1) =
       ([''spec.containers.'' @ [CHR 0x08] @ ''[0].name: nginx'' @ [CHR 0x0A],
         ''spec.containers.'' @ [CHR 0x08] @ ''[0].image: nginx:latest'' @ [CHR 0x0A]], True)
   \<and> count_scalars pod = 2"
proof -
  have h: "well_formed pod" by (simp add: doc_defs)
  have l: "leaves [] pod =
             [([''spec'', ''containers'', index_label 0, ''name''], ''nginx''),
              ([''spec'', ''containers'', index_label 0, ''image''], ''nginx:latest'')]"
    by (simp add: doc_defs)
  have c: "count_scalars pod = 2" by (simp add: doc_defs)
  show ?thesis
    using h walk_unbounded_one_line_per_scalar [OF h, of "- 1" "[]"]
    by (simp add: l c line_def emit_def show_defs)
qed

section \<open>Depth truncation\<close>

lemma walk_truncate:
  "r < 0 \<Longrightarrow> walk pure node path (int d) = walk pure (truncate d node) path r"
  "r < 0 \<Longrightarrow> walk_mapping pure entries path (int d) =
     walk_mapping pure (truncate_entries d entries) path r"
  "r < 0 \<Longrightarrow> walk_sequence pure i items path (int d) =
     walk_sequence pure i (truncate_items d items) path r"
proof (induction d node and d entries and d items
       arbitrary: path r and path r and path i r
       rule: truncate_truncate_entries_truncate_items.induct)
  case (1 d kind content val)
  then show ?case by (cases d) auto
qed auto

subsection \<open>The lines of a pruned and truncated tree\<close>

lemma lookup_generated_keys: "lookup autoGenerated key = (key \<in> set generated_keys)"
  by (simp add: lookup_def autoGenerated_def generated_keys_def)

lemma walk_prune:
  "walk True node path remain = walk False (prune node) path remain"
  "walk_mapping True entries path remain = walk_mapping False (prune_entries entries) path remain"
  "walk_sequence True i items path remain = walk_sequence False i (prune_items items) path remain"
proof (induction node and entries and items
       arbitrary: path remain and path remain and path remain i
       rule: prune_prune_entries_prune_items.induct)
qed (auto simp: lookup_generated_keys)

lemma well_formed_prune:
  "well_formed node \<Longrightarrow> well_formed (prune node)"
  "well_formed_entries entries \<Longrightarrow> well_formed_entries (prune_entries entries)"
  "well_formed_items items \<Longrightarrow> well_formed_items (prune_items items)"
  by (induction node and entries and items rule: prune_prune_entries_prune_items.induct) auto

lemma well_formed_truncate:
  "well_formed node \<Longrightarrow> well_formed (truncate d node)"
  "well_formed_entries entries \<Longrightarrow> well_formed_entries (truncate_entries d entries)"
  "well_formed_items items \<Longrightarrow> well_formed_items (truncate_items d items)"
proof (induction d node and d entries and d items
       rule: truncate_truncate_entries_truncate_items.induct)
  case (1 d kind content val)
  then show ?case by (cases d) auto
qed auto

lemma well_formed_pruned: "well_formed T \<Longrightarrow> well_formed (pruned pure T)"
  by (simp add: pruned_def well_formed_prune(1))

lemma walk_pruned: "walk pure T path remain = walk False (pruned pure T) path remain"
  by (simp add: pruned_def walk_prune(1))

lemma walk_lines_unbounded:
  assumes "well_formed T" and "remain < 0"
  shows "walk pure T path remain = (map line (leaves path (pruned pure T)), True)"
proof -
  have "walk pure T path remain = walk False (pruned pure T) path remain"
    by (rule walk_pruned)
  also have "\<dots> = (map line (leaves path (pruned pure T)), True)"
    using well_formed_pruned [OF assms(1)] assms(2) by (rule walk_unbounded(1))
  finally show ?thesis .
qed

lemma walk_lines_depth:
  assumes "well_formed T"
  shows "walk pure T path (int d) = (map line (leaves path (pruned pure (truncate d T))), True)"
proof -
  have "walk pure T path (int d) = walk pure (truncate d T) path (- 1)"
    by (rule walk_truncate(1)) simp
  also have "\<dots> = (map line (leaves path (pruned pure (truncate d T))), True)"
    using well_formed_truncate(1) [OF assms] by (rule walk_lines_unbounded) simp
  finally show ?thesis .
qed

text \<open>
  C4. For every well-formed tree and every depth limit \<open>maxDepth \<ge> 0\<close>, \<^verbatim>\<open>walk\<close> returns
  after writing exactly the lines of the tree truncated after \<open>maxDepth\<close> levels (and
  pruned when \<^verbatim>\<open>pure\<close> is on): every mapping or sequence reached with the counter at 0
  gives the one line \<^verbatim>\<open><path>: <object>\<close> or \<^verbatim>\<open><path>: <array>\<close> and nothing from below it, and
  everything above is written as without a limit. At \<^verbatim>\<open>remain = 0\<close> a mapping or sequence
  writes its placeholder and \<^verbatim>\<open>walk\<close> returns; a positive \<^verbatim>\<open>remain\<close> goes down by one for each
  mapping or sequence entered; a scalar writes its line whatever \<^verbatim>\<open>remain\<close> is. Depth 0 on
  a root mapping gives \<^verbatim>\<open>: <object>\<close>, depth 1 on \<^verbatim>\<open>{a: {b: 1}}\<close> gives \<^verbatim>\<open>a: <object>\<close>.
\<close>

theorem walk_depth_truncation:
  "(well_formed T \<longrightarrow>
      walk pure T path (int maxDepth) =
      (map line (leaves path (pruned pure (truncate maxDepth T))), True))
   \<and> (Kind node = MappingNode \<longrightarrow> walk pure node path 0 = ([emit path ''<object>''], True))
   \<and> (Kind node = SequenceNode \<longrightarrow> walk pure node path 0 = ([emit path ''<array>''], True))
   \<and> (Kind node = MappingNode \<and> 0 < remain \<longrightarrow>
        walk pure node path remain = walk_mapping pure (Content node) path (remain - 1))
   \<and> (Kind node = SequenceNode \<and> 0 < remain \<longrightarrow>
        walk pure node path remain = walk_sequence pure 0 (Content node) path (remain - 1))
   \<and> (Kind node \<noteq> MappingNode \<and> Kind node \<noteq> SequenceNode \<longrightarrow>
        walk pure node path remain = ([emit path (Value node)], True))
   \<and> walk pure node path (int maxDepth) = walk pure (truncate maxDepth node) path (- 1)
   \<and> walk pure (mapping entries) [] 0 = (['': <object>'' @ [CHR 0x0A]], True)
   \<and> walk pure nested_doc [] 1 = ([''a: <object>'' @ [CHR 0x0A]], True)
   \<and> walk pure (sequence [mapping [scalar ''a'', scalar ''1''], scalar ''z'']) [] 1 =
        ([[CHR 0x08] @ ''[0]: <object>'' @ [CHR 0x0A], [CHR 0x08] @ ''[1]: z'' @ [CHR 0x0A]], True)
   \<and> walk pure (mapping [scalar ''a'', mapping [scalar ''x'', scalar ''1''],
                           scalar ''b'', sequence [scalar ''y''],
                           scalar ''c'', scalar ''3'']) [] 1 =
        ([''a: <object>'' @ [CHR 0x0A], ''b: <array>'' @ [CHR 0x0A], ''c: 3'' @ [CHR 0x0A]], True)"
proof -
  have abs: "well_formed T \<longrightarrow>
      walk pure T path (int maxDepth) =
      (map line (leaves path (pruned pure (truncate maxDepth T))), True)"
    by (simp add: walk_lines_depth)
  have a: "Kind node = MappingNode \<longrightarrow> walk pure node path 0 = ([emit path ''<object>''], True)"
    by (cases node) simp
  have b: "Kind node = SequenceNode \<longrightarrow> walk pure node path 0 = ([emit path ''<array>''], True)"
    by (cases node) simp
  have c: "Kind node = MappingNode \<and> 0 < remain \<longrightarrow>
        walk pure node path remain = walk_mapping pure (Content node) path (remain - 1)"
    by (cases node) simp
  have d: "Kind node = SequenceNode \<and> 0 < remain \<longrightarrow>
        walk pure node path remain = walk_sequence pure 0 (Content node) path (remain - 1)"
    by (cases node) simp
  have e: "Kind node \<noteq> MappingNode \<and> Kind node \<noteq> SequenceNode \<longrightarrow>
        walk pure node path remain = ([emit path (Value node)], True)"
    by (cases node) simp
  have f: "walk pure node path (int maxDepth) = walk pure (truncate maxDepth node) path (- 1)"
    by (rule walk_truncate(1)) simp
  have g: "walk pure (mapping entries) [] 0 = (['': <object>'' @ [CHR 0x0A]], True)"
    by (simp add: mapping_def emit_def)
  have h: "walk pure nested_doc [] 1 = ([''a: <object>'' @ [CHR 0x0A]], True)"
    by (simp add: doc_defs emit_def then_walk_def lookup_def autoGenerated_def)
  have i: "walk pure (sequence [mapping [scalar ''a'', scalar ''1''], scalar ''z'']) [] 1 =
        ([[CHR 0x08] @ ''[0]: <object>'' @ [CHR 0x0A], [CHR 0x08] @ ''[1]: z'' @ [CHR 0x0A]], True)"
    by (simp add: doc_defs emit_def then_walk_def show_defs)
  have j: "walk pure (mapping [scalar ''a'', mapping [scalar ''x'', scalar ''1''],
                           scalar ''b'', sequence [scalar ''y''],
                           scalar ''c'', scalar ''3'']) [] 1 =
        ([''a: <object>'' @ [CHR 0x0A], ''b: <array>'' @ [CHR 0x0A], ''c: 3'' @ [CHR 0x0A]], True)"
    by (simp add: doc_defs emit_def then_walk_def lookup_def autoGenerated_def)
  show ?thesis by (intro conjI abs a b c d e f g h i j)
qed

theorem walk_depth_truncation_witness:
  "well_formed depth_doc \<and> Kind depth_doc = MappingNode \<and> (0::int) < 2
   \<and> walk False depth_doc [''r''] (int 2) =
       (map line (leaves [''r''] (pruned False (truncate 2 depth_doc))), True)
   \<and> walk False depth_doc [''r''] 2 =
       ([''r.a.x: <array>'' @ [CHR 0x0A],
         ''r.b.'' @ [CHR 0x08] @ ''[0]: <object>'' @ [CHR 0x0A],
         ''r.b.'' @ [CHR 0x08] @ ''[1]: z'' @ [CHR 0x0A],
         ''r.c: 3'' @ [CHR 0x0A]], True)
   \<and> walk False depth_doc [''r''] 0 = ([emit [''r''] ''<object>''], True)
   \<and> walk False depth_doc [''r''] 2 = walk_mapping False (Content depth_doc) [''r''] (2 - 1)"
proof -
  have w: "well_formed depth_doc" by (simp add: depth_doc_def doc_defs)
  have k: "Kind depth_doc = MappingNode" by (simp add: depth_doc_def doc_defs)
  have l: "(0::int) < 2" by simp
  note t = walk_depth_truncation [of depth_doc False "[''r'']" 2 depth_doc 2 "[]"]
  have abs: "walk False depth_doc [''r''] (int 2) =
       (map line (leaves [''r''] (pruned False (truncate 2 depth_doc))), True)"
    using t [THEN conjunct1] w by (rule mp)
  have tr: "truncate 2 depth_doc =
      mapping [scalar ''a'', mapping [scalar ''x'', scalar ''<array>''],
               scalar ''b'', sequence [scalar ''<object>'', scalar ''z''],
               scalar ''c'', scalar ''3'']"
    by (simp add: depth_doc_def doc_defs numeral_2_eq_2)
  have lines: "walk False depth_doc [''r''] 2 =
       ([''r.a.x: <array>'' @ [CHR 0x0A],
         ''r.b.'' @ [CHR 0x08] @ ''[0]: <object>'' @ [CHR 0x0A],
         ''r.b.'' @ [CHR 0x08] @ ''[1]: z'' @ [CHR 0x0A],
         ''r.c: 3'' @ [CHR 0x0A]], True)"
    using abs by (simp add: tr pruned_def doc_defs line_def emit_def show_defs)
  have z: "walk False depth_doc [''r''] 0 = ([emit [''r''] ''<object>''], True)"
    using t [THEN conjunct2, THEN conjunct1] k by (rule mp)
  have dec: "walk False depth_doc [''r''] 2 = walk_mapping False (Content depth_doc) [''r''] (2 - 1)"
    using t [THEN conjunct2, THEN conjunct2, THEN conjunct2, THEN conjunct1] k l by simp
  show ?thesis by (intro conjI w k l abs lines z dec)
qed

section \<open>Pruning\<close>

lemma walk_drop_key:
  "lookup autoGenerated key \<Longrightarrow>
     walk True node path remain = walk True (drop_key key node) path remain"
  "lookup autoGenerated key \<Longrightarrow>
     walk_mapping True entries path remain = walk_mapping True (drop_key_entries key entries) path remain"
  "lookup autoGenerated key \<Longrightarrow>
     walk_sequence True i items path remain = walk_sequence True i (drop_key_items key items) path remain"
proof (induction key node and key entries and key items
       arbitrary: path remain and path remain and path remain i
       rule: drop_key_drop_key_entries_drop_key_items.induct)
qed auto

lemma lookup_status: "lookup autoGenerated ''status''"
  by (simp add: lookup_def autoGenerated_def)

text \<open>
  C5. With \<^verbatim>\<open>pure\<close> on, the output for a tree is the output for the tree without its
  entries keyed \<^verbatim>\<open>status\<close>, removed with their subtrees at every nesting level; and the
  mapping loop skips such an entry before \<^verbatim>\<open>walk\<close> is called on its value, so for every
  \<^verbatim>\<open>remain\<close> (0 included, where the value would get a placeholder line) the entry writes
  nothing.
\<close>

theorem status_pruned_at_every_level:
  "walk True T path remain = walk True (drop_key ''status'' T) path remain
   \<and> (Value keyNode = ''status'' \<longrightarrow>
        walk_mapping True (keyNode # valueNode # rest) path remain =
        walk_mapping True rest path remain)"
proof -
  have a: "walk True T path remain = walk True (drop_key ''status'' T) path remain"
    using lookup_status by (rule walk_drop_key(1))
  have b: "Value keyNode = ''status'' \<longrightarrow>
        walk_mapping True (keyNode # valueNode # rest) path remain =
        walk_mapping True rest path remain"
    using lookup_status by simp
  from a b show ?thesis by blast
qed

theorem status_pruned_at_every_level_witness:
  "Value (scalar ''status'') = ''status''
   \<and> walk_mapping True [scalar ''status'', nested_doc, scalar ''kind'', scalar ''Pod''] [] 0 =
      walk_mapping True [scalar ''kind'', scalar ''Pod''] [] 0
   \<and> walk True (mapping [scalar ''spec'', mapping [scalar ''status'', nested_doc, scalar ''kind'', scalar ''Pod'']]) [] 2
       = ([''spec.kind: Pod'' @ [CHR 0x0A]], True)"
proof -
  have v: "Value (scalar ''status'') = ''status''" by (simp add: scalar_def)
  have w: "walk True (mapping [scalar ''spec'', mapping [scalar ''status'', nested_doc, scalar ''kind'', scalar ''Pod'']]) [] 2
       = ([''spec.kind: Pod'' @ [CHR 0x0A]], True)"
    by (simp add: doc_defs emit_def then_walk_def lookup_def autoGenerated_def)
  from status_pruned_at_every_level [of nested_doc "[]" 0 "scalar ''status''" nested_doc "[scalar ''kind'', scalar ''Pod'']"] v w
  show ?thesis by blast
qed



section \<open>The empty entry point\<close>

text \<open>
  C9, as the code has it. The empty path is the root by a guard of \<^verbatim>\<open>main\<close>, not by
  \<^verbatim>\<open>findNodeByPath\<close>: for the empty \<^verbatim>\<open>entry\<close> the prefix \<^verbatim>\<open>main\<close> computes is the empty list and
  \<^verbatim>\<open>main\<close> walks the root node itself, without a call of \<^verbatim>\<open>findNodeByPath\<close>. In
  \<^verbatim>\<open>findNodeByPath\<close> the empty path is split into one empty part, which is looked up as
  the key \<^verbatim>\<open>""\<close>: the result is the error \<^verbatim>\<open>invalid format: \<close> when the node has no entry
  with that key, and the value of that entry when it has one.
\<close>

theorem empty_entry_is_handled_by_main:
  "strings_Split [] (CHR ''.'') = [[]]
   \<and> (getMapValue node [] = Inr None \<longrightarrow>
        findNodeByPath node [] = Inl (Error ''invalid format: ''))
   \<and> (getMapValue node [] = Inr (Some child) \<longrightarrow> findNodeByPath node [] = Inr child)
   \<and> entryPath [] = []
   \<and> main [] file pure depth (Node kind (rootNode # others) val) =
       finish (walk pure rootNode [] (sint depth))"
proof -
  have a: "strings_Split [] (CHR ''.'') = [[]]" by simp
  have b: "getMapValue node [] = Inr None \<longrightarrow>
        findNodeByPath node [] = Inl (Error ''invalid format: '')"
    by (simp add: findNodeByPath_def strings_Contains_def)
  have c: "getMapValue node [] = Inr (Some child) \<longrightarrow> findNodeByPath node [] = Inr child"
    by (simp add: findNodeByPath_def strings_Contains_def)
  have d: "entryPath [] = []" by (simp add: entryPath_def)
  have e: "main [] file pure depth (Node kind (rootNode # others) val) =
       finish (walk pure rootNode [] (sint depth))"
    by (simp add: entryPath_def main_def)
  show ?thesis by (intro conjI a b c d e)
qed

theorem empty_entry_is_handled_by_main_witness:
  "getMapValue nested_doc [] = Inr None
   \<and> findNodeByPath nested_doc [] = Inl (Error ''invalid format: '')
   \<and> getMapValue (mapping [scalar [], scalar ''v'']) [] = Inr (Some (scalar ''v''))
   \<and> findNodeByPath (mapping [scalar [], scalar ''v'']) [] = Inr (scalar ''v'')
   \<and> main [] [] False (- 1) (Node DocumentNode [nested_doc] []) = Walked [''a.b: 1'' @ [CHR 0x0A]]"
proof -
  have n: "getMapValue nested_doc [] = Inr None" by (simp add: getMapValue_def doc_defs)
  have s: "getMapValue (mapping [scalar [], scalar ''v'']) [] = Inr (Some (scalar ''v''))"
    by (simp add: getMapValue_def doc_defs)
  note t = empty_entry_is_handled_by_main [of nested_doc "scalar ''v''" "[]" False "- 1" DocumentNode nested_doc "[]" "[]"]
  note u = empty_entry_is_handled_by_main [of "mapping [scalar [], scalar ''v'']" "scalar ''v''" "[]" False "- 1" DocumentNode nested_doc "[]" "[]"]
  have e1: "findNodeByPath nested_doc [] = Inl (Error ''invalid format: '')"
    using t [THEN conjunct2, THEN conjunct1] n by (rule mp)
  have e2: "findNodeByPath (mapping [scalar [], scalar ''v'']) [] = Inr (scalar ''v'')"
    using u [THEN conjunct2, THEN conjunct2, THEN conjunct1] s by (rule mp)
  have w: "walk False nested_doc [] (- 1) = ([''a.b: 1'' @ [CHR 0x0A]], True)"
    by (simp add: doc_defs emit_def then_walk_def)
  have "main [] [] False (- 1) (Node DocumentNode [nested_doc] []) =
          finish (walk False nested_doc [] (sint (- 1 :: 16 word)))"
    using t [THEN conjunct2, THEN conjunct2, THEN conjunct2, THEN conjunct2] .
  then have m: "main [] [] False (- 1) (Node DocumentNode [nested_doc] []) = Walked [''a.b: 1'' @ [CHR 0x0A]]"
    by (simp add: w finish_def)
  show ?thesis by (intro conjI n e1 s e2 m)
qed

text \<open>
  \<^verbatim>\<open>strings.Split("", ".")\<close> is not the empty list, and \<^verbatim>\<open>findNodeByPath\<close> with the empty
  path returns an error for \<^verbatim>\<open>{a: {b: 1}}\<close> and the child \<^verbatim>\<open>v\<close> for \<^verbatim>\<open>{"": v}\<close>, not the root.
\<close>

theorem empty_entry_counterexample:
  "strings_Split [] (CHR ''.'') \<noteq> []
   \<and> findNodeByPath nested_doc [] = Inl (Error ''invalid format: '')
   \<and> findNodeByPath nested_doc [] \<noteq> Inr nested_doc
   \<and> findNodeByPath (mapping [scalar [], scalar ''v'']) [] = Inr (scalar ''v'')
   \<and> findNodeByPath (mapping [scalar [], scalar ''v'']) [] \<noteq> Inr (mapping [scalar [], scalar ''v''])"
  by (simp add: path_defs doc_defs)

section \<open>The path printed before each value\<close>

lemma strings_Join_snoc:
  "strings_Join (xs @ [x]) sep = (if xs = [] then x else strings_Join xs sep @ sep @ x)"
  by (induction xs sep rule: strings_Join.induct) auto

lemma shown_append: "shown screen (xs @ ys) = shown (shown screen xs) ys"
  by (induction xs arbitrary: screen) auto

lemma shown_plain: "CHR 0x08 \<notin> set xs \<Longrightarrow> shown screen xs = screen @ xs"
  by (induction xs arbitrary: screen) auto

lemma digit_char_plain: "d < 10 \<Longrightarrow> digit_char d \<noteq> CHR 0x08"
proof -
  assume "d < 10"
  then have "d \<in> {0, 1, 2, 3, 4, 5, 6, 7, 8, 9}" by auto
  then show ?thesis by (auto simp: digit_char_def)
qed

lemma show_nat_plain: "CHR 0x08 \<notin> set (show_nat n)"
proof (induction n rule: show_nat.induct)
  case (1 n)
  show ?case
  proof (cases "n < 10")
    case True
    then show ?thesis using digit_char_plain [of n] by (simp add: show_nat.simps [of n])
  next
    case False
    then show ?thesis
      using 1 digit_char_plain [of "n mod 10"] by (simp add: show_nat.simps [of n])
  qed
qed

lemma shown_index_label: "shown (screen @ ''.'') (index_label i) = screen @ ''['' @ show_int (int i) @ '']''"
  using show_nat_plain [of i]
  by (simp add: index_label_def show_int_def shown_plain)

lemma shown_index_label_first: "shown [] (index_label i) = ''['' @ show_int (int i) @ '']''"
  using show_nat_plain [of i]
  by (simp add: index_label_def show_int_def shown_plain)

lemma render_spec_from_append:
  "render_spec_from first (segments @ more) =
     render_spec_from first segments @ render_spec_from (first \<and> segments = []) more"
  by (induction first segments rule: render_spec_from.induct) auto

lemma shown_render: "list_all plain segments \<Longrightarrow> shown [] (render segments) = render_spec segments"
proof (induction segments rule: rev_induct)
  case Nil
  then show ?case by (simp add: render_def render_spec_def)
next
  case (snoc seg segments)
  then have ih: "shown [] (render segments) = render_spec segments" and p: "plain seg"
    by simp_all
  show ?case
  proof (cases "segments = []")
    case True
    then show ?thesis using p
      by (cases seg) (simp_all add: render_def render_spec_def shown_plain shown_index_label_first)
  next
    case False
    have r: "render (segments @ [seg]) = render segments @ ''.'' @ label seg"
      using False by (simp add: render_def strings_Join_snoc)
    have "shown [] (render (segments @ [seg])) = shown (render_spec segments @ ''.'') (label seg)"
      by (simp add: r shown_append ih)
    also have "\<dots> = render_spec (segments @ [seg])"
      using False p
      by (cases seg) (simp_all add: render_spec_def render_spec_from_append shown_plain shown_index_label)
    finally show ?thesis .
  qed
qed

text \<open>
  C3, as the code has it. The printed path is \<^verbatim>\<open>strings.Join(path, ".")\<close>, so every label
  but the first is preceded by a dot, an index label too, and the index label is the
  backspace byte followed by \<^verbatim>\<open>[i]\<close>: the bytes for \<^verbatim>\<open>a\<close>, \<^verbatim>\<open>b\<close>, item 0, \<^verbatim>\<open>c\<close> are
  \<^verbatim>\<open>a.b.\<close>, backspace, \<^verbatim>\<open>[0].c\<close>. The empty path is printed as the empty text. When no field
  name holds a backspace, what a terminal shows for the printed path is the rendering of
  the specification (\<^verbatim>\<open>a.b[0].c\<close>).
\<close>

theorem render_joins_with_dot_and_backspace:
  "render [] = []
   \<and> render (segments @ [Field name]) =
       (if segments = [] then name else render segments @ ''.'' @ name)
   \<and> render (segments @ [Index i]) =
       (if segments = [] then [] else render segments @ ''.'')
         @ [CHR 0x08] @ ''['' @ show_int (int i) @ '']''
   \<and> (list_all plain segments \<longrightarrow> shown [] (render segments) = render_spec segments)"
proof -
  have a: "render [] = []" by (simp add: render_def)
  have b: "render (segments @ [Field name]) =
       (if segments = [] then name else render segments @ ''.'' @ name)"
    by (simp add: render_def strings_Join_snoc)
  have c: "render (segments @ [Index i]) =
       (if segments = [] then [] else render segments @ ''.'')
         @ [CHR 0x08] @ ''['' @ show_int (int i) @ '']''"
    by (simp add: render_def strings_Join_snoc index_label_def)
  have d: "list_all plain segments \<longrightarrow> shown [] (render segments) = render_spec segments"
    by (simp add: shown_render)
  show ?thesis by (intro conjI a b c d)
qed

theorem render_joins_with_dot_and_backspace_witness:
  "list_all plain [Field ''a'', Field ''b'', Index 0, Field ''c'']
   \<and> shown [] (render [Field ''a'', Field ''b'', Index 0, Field ''c'']) = ''a.b[0].c''
   \<and> render [Field ''a'', Field ''b'', Index 0, Field ''c''] = ''a.b.'' @ [CHR 0x08] @ ''[0].c''"
proof -
  have p: "list_all plain [Field ''a'', Field ''b'', Index 0, Field ''c'']" by simp
  have s: "render_spec [Field ''a'', Field ''b'', Index 0, Field ''c''] = ''a.b[0].c''"
    by (simp add: render_spec_def show_defs)
  have r: "render [Field ''a'', Field ''b'', Index 0, Field ''c''] = ''a.b.'' @ [CHR 0x08] @ ''[0].c''"
    by (simp add: render_def show_defs)
  have "shown [] (render [Field ''a'', Field ''b'', Index 0, Field ''c'']) =
          render_spec [Field ''a'', Field ''b'', Index 0, Field ''c'']"
    using render_joins_with_dot_and_backspace [of "[Field ''a'', Field ''b'', Index 0, Field ''c'']" "[]" 0,
        THEN conjunct2, THEN conjunct2, THEN conjunct2] p by (rule mp)
  then have v: "shown [] (render [Field ''a'', Field ''b'', Index 0, Field ''c'']) = ''a.b[0].c''"
    by (simp only: s)
  show ?thesis by (intro conjI p v r)
qed

text \<open>
  The bytes written for \<^verbatim>\<open>{a: {b: [{c: v}]}}\<close> are not \<^verbatim>\<open>a.b[0].c: v\<close>: a dot and a backspace
  stand before the bracket.
\<close>

theorem render_counterexample:
  "walk False (mapping [scalar ''a'', mapping [scalar ''b'', sequence [mapping [scalar ''c'', scalar ''v'']]]]) [] (- 1)
     = ([''a.b.'' @ [CHR 0x08] @ ''[0].c: v'' @ [CHR 0x0A]], True)
   \<and> render [Field ''a'', Field ''b'', Index 0, Field ''c''] = ''a.b.'' @ [CHR 0x08] @ ''[0].c''
   \<and> render [Field ''a'', Field ''b'', Index 0, Field ''c''] \<noteq> ''a.b[0].c''
   \<and> render [Field ''a'', Field ''b'', Index 0, Field ''c''] \<noteq>
       render_spec [Field ''a'', Field ''b'', Index 0, Field ''c'']"
  by (simp add: render_def render_spec_def doc_defs show_defs emit_def then_walk_def)

section \<open>The scenario of the containers\<close>

text \<open>
  C2, as the code has it. \<^verbatim>\<open>findNodeByPath\<close> from the root mapping with \<^verbatim>\<open>spec.containers\<close>
  gives the sequence of containers, and \<^verbatim>\<open>main\<close> walks what it found with the prefix
  \<open>entryPath\<close>, the entry split at the dots: with no depth limit and \<^verbatim>\<open>pure\<close> off the two
  lines written are \<^verbatim>\<open>spec.containers.\<close>, backspace, \<^verbatim>\<open>[0].name: nginx\<close> and \<^verbatim>\<open>spec.containers.\<close>,
  backspace, \<^verbatim>\<open>[0].image: nginx:latest\<close>, in that order.
\<close>

theorem containers_flattened_with_entry_prefix:
  "findNodeByPath pod ''spec.containers'' = Inr containers
   \<and> entryPath ''spec.containers'' = [''spec'', ''containers'']
   \<and> walk False containers (entryPath ''spec.containers'') (- 1) =
       ([''spec.containers.'' @ [CHR 0x08] @ ''[0].name: nginx'' @ [CHR 0x0A],
         ''spec.containers.'' @ [CHR 0x08] @ ''[0].image: nginx:latest'' @ [CHR 0x0A]], True)"
  by (simp add: findNodeByPath_def strings_Contains_def getMapValue_def entryPath_def
        doc_defs show_defs emit_def then_walk_def)

text \<open>
  With the empty prefix the two lines start with the backspace byte, so they are not
  \<^verbatim>\<open>[0].name: nginx\<close> and \<^verbatim>\<open>[0].image: nginx:latest\<close>; and the prefix \<^verbatim>\<open>main\<close> passes is not
  empty.
\<close>

theorem containers_counterexample:
  "findNodeByPath pod ''spec.containers'' = Inr containers
   \<and> walk False containers [] (- 1) =
       ([[CHR 0x08] @ ''[0].name: nginx'' @ [CHR 0x0A],
         [CHR 0x08] @ ''[0].image: nginx:latest'' @ [CHR 0x0A]], True)
   \<and> fst (walk False containers [] (- 1)) \<noteq>
       [''[0].name: nginx'' @ [CHR 0x0A], ''[0].image: nginx:latest'' @ [CHR 0x0A]]
   \<and> fst (walk False containers [] (- 1)) \<noteq> [''[0].name: nginx'', ''[0].image: nginx:latest'']
   \<and> entryPath ''spec.containers'' = [''spec'', ''containers'']"
  by (simp add: findNodeByPath_def strings_Contains_def getMapValue_def entryPath_def
        doc_defs show_defs emit_def then_walk_def)

section \<open>Parts with an index\<close>

lemma strings_Index_first:
  "c \<notin> set xs \<Longrightarrow> strings_Index (xs @ c # ys) c = int (length xs)"
  by (induction xs) (auto simp: Let_def)

lemma bracket_positions:
  assumes "CHR ''['' \<notin> set name" and "CHR '']'' \<notin> set name" and "CHR '']'' \<notin> set idx"
  shows "strings_Index (name @ CHR ''['' # idx @ '']'') (CHR ''['') = int (length name)"
    and "strings_Index (name @ CHR ''['' # idx @ '']'') (CHR '']'') =
           int (length name) + 1 + int (length idx)"
proof -
  show "strings_Index (name @ CHR ''['' # idx @ '']'') (CHR ''['') = int (length name)"
    using assms(1) by (rule strings_Index_first)
  have "CHR '']'' \<notin> set (name @ CHR ''['' # idx)" using assms(2,3) by simp
  from strings_Index_first [OF this, of "[]"]
  show "strings_Index (name @ CHR ''['' # idx @ '']'') (CHR '']'') =
          int (length name) + 1 + int (length idx)"
    by simp
qed

lemma bracket_part:
  assumes "CHR ''['' \<notin> set name" and "CHR '']'' \<notin> set name" and "CHR '']'' \<notin> set idx"
  shows "findNodeByPath_loop entrypoint current ((name @ ''['' @ idx @ '']'') # parts) =
     (case getMapValue current name of
        Inl e \<Rightarrow> Inl e
      | Inr None \<Rightarrow> Inl (Error (''key '' @ name @ '' not found''))
      | Inr (Some child) \<Rightarrow>
          if Kind child \<noteq> SequenceNode \<or> strconv_Atoi idx \<ge> int (length (Content child))
          then Inl (Error (''index ['' @ show_int (strconv_Atoi idx) @ ''] out of range for '' @ name))
          else if strconv_Atoi idx < 0 then Inl Panic
          else findNodeByPath_loop entrypoint (Content child ! nat (strconv_Atoi idx)) parts)"
proof -
  have s1: "slice (name @ CHR ''['' # idx @ '']'') 0 (int (length name)) = Some name"
    by (simp add: slice_def)
  have n: "nat (int (length name) + 1) = Suc (length name)" by arith
  have s2: "slice (name @ CHR ''['' # idx @ '']'') (int (length name) + 1)
              (int (length name) + 1 + int (length idx)) = Some idx"
    by (simp add: slice_def n)
  have c: "strings_Contains (name @ CHR ''['' # idx @ '']'') (CHR ''['')"
    by (simp add: strings_Contains_def)
  show ?thesis
    by (simp add: bracket_positions [OF assms] s1 s2 c Let_def)
qed

text \<open>
  C7, as the code has it. For a part \<^verbatim>\<open>name[idx]\<close> whose field \<^verbatim>\<open>name\<close> is present in the
  current mapping, when the value is not a sequence or the index is at least the length
  of the sequence, \<^verbatim>\<open>findNodeByPath\<close> fails with the error
  \<^verbatim>\<open>index [<index>] out of range for <name>\<close>: the message carries the index and the name of
  the field, not the length of the sequence.
\<close>

theorem index_error_reports_index_and_name:
  assumes "CHR ''['' \<notin> set name" and "CHR '']'' \<notin> set name" and "CHR '']'' \<notin> set idx"
    and "getMapValue current name = Inr (Some child)"
    and "Kind child \<noteq> SequenceNode \<or> int (length (Content child)) \<le> strconv_Atoi idx"
  shows "findNodeByPath_loop entrypoint current ((name @ ''['' @ idx @ '']'') # parts) =
     Inl (Error (''index ['' @ show_int (strconv_Atoi idx) @ ''] out of range for '' @ name))"
proof -
  note bracket_part [OF assms(1,2,3), of entrypoint current parts]
  then show ?thesis using assms(4,5) by simp
qed

theorem index_error_reports_index_and_name_witness:
  "findNodeByPath items_doc ''items[5]'' = Inl (Error ''index [5] out of range for items'')"
proof -
  have b: "CHR ''['' \<notin> set ''items''" "CHR '']'' \<notin> set ''items''" "CHR '']'' \<notin> set ''5''"
    by simp_all
  have g: "getMapValue items_doc ''items'' = Inr (Some (sequence [scalar ''x'', scalar ''y'']))"
    by (simp add: getMapValue_def doc_defs)
  have a: "strconv_Atoi ''5'' = 5" by (simp add: path_defs)
  have k: "Kind (sequence [scalar ''x'', scalar ''y'']) \<noteq> SequenceNode
           \<or> int (length (Content (sequence [scalar ''x'', scalar ''y'']))) \<le> strconv_Atoi ''5''"
    by (simp add: a doc_defs)
  have "findNodeByPath_loop ''items[5]'' items_doc ((''items'' @ ''['' @ ''5'' @ '']'') # []) =
     Inl (Error (''index ['' @ show_int (strconv_Atoi ''5'') @ ''] out of range for '' @ ''items''))"
    using b g k by (rule index_error_reports_index_and_name)
  then show ?thesis by (simp add: findNodeByPath_def a show_defs)
qed

text \<open>
  The error for \<^verbatim>\<open>items[5]\<close> is the same for a sequence of two items and for a sequence of
  one item, and the bound 2 does not occur in it.
\<close>

theorem index_error_counterexample:
  "findNodeByPath items_doc ''items[5]'' = Inl (Error ''index [5] out of range for items'')
   \<and> findNodeByPath (mapping [scalar ''items'', sequence [scalar ''x'']]) ''items[5]''
       = Inl (Error ''index [5] out of range for items'')
   \<and> CHR ''2'' \<notin> set ''index [5] out of range for items''"
  by (simp add: path_defs doc_defs show_defs)




text \<open>
  C8, at its failing inputs. The guard before \<^verbatim>\<open>child.Content[index]\<close> is
  \<^verbatim>\<open>index >= len(child.Content)\<close> only, so a negative index reaches the read and the runtime
  panics; a part with \<^verbatim>\<open>[\<close> and no \<^verbatim>\<open>]\<close> panics in the slice expression. Neither is returned
  as an error.
\<close>

theorem negative_index_panics:
  "findNodeByPath items_doc ''items[-1]'' = Inl Panic
   \<and> findNodeByPath items_doc ''items[1'' = Inl Panic"
  by (simp add: path_defs doc_defs show_defs)

end
